theory Spec2Isabelle
  imports Complex_Main "HOL-Library.Sublist" "HOL-Library.Multiset" "HOL-Library.Word"
begin

section \<open>Problem 4: three ways to sum to n\<close>

















section \<open>Problem 5: JavaScript and SQL strings\<close>

text \<open>
  A string is a list of characters, one \<open>char\<close> for each code unit; the model covers
  code units up to \<open>U+00FF\<close>. \<open>length\<close> is JavaScript's \<open>.length\<close>.
  An optional field of a request object is an \<open>option\<close>: \<open>None\<close> is
  \<open>undefined\<close>.
\<close>

text \<open>JavaScript truthiness of an optional string: \<open>undefined\<close> and the empty
  string are falsy.\<close>

definition truthy :: "string option \<Rightarrow> bool" where
  "truthy v = (case v of None \<Rightarrow> False | Some s \<Rightarrow> s \<noteq> [])"

text \<open>\<open>a || b\<close> on optional strings.\<close>

definition js_or :: "string option \<Rightarrow> string option \<Rightarrow> string option" where
  "js_or a b = (if truthy a then a else b)"

text \<open>The white space that \<open>String.prototype.trim\<close> strips, among the code units
  below 256: tab, line feed, vertical tab, form feed, carriage return, space, no-break space.\<close>

definition isWhiteSpace :: "char \<Rightarrow> bool" where
  "isWhiteSpace c = ((of_char c :: nat) \<in> {9, 10, 11, 12, 13, 32, 160})"

definition trim :: "string \<Rightarrow> string" where
  "trim s = rev (dropWhile isWhiteSpace (rev (dropWhile isWhiteSpace s)))"

text \<open>Decimal rendering of an integer, as a template literal renders a number.\<close>

definition digit :: "nat \<Rightarrow> char" where
  "digit d = ''0123456789'' ! d"

function show_nat :: "nat \<Rightarrow> string" where
  "show_nat n = (if n < 10 then [digit n] else show_nat (n div 10) @ [digit (n mod 10)])"
  by pat_completeness auto
termination
  by (relation "measure (\<lambda>n. n)") auto

declare show_nat.simps [simp del]

definition show_int :: "int \<Rightarrow> string" where
  "show_int i = (if i < 0 then CHR ''-'' # show_nat (nat (- i)) else show_nat (nat i))"

text \<open>Case folding of \<open>ILIKE\<close>, on the ASCII letters.\<close>

definition toLower :: "char \<Rightarrow> char" where
  "toLower c =
     (case map_of (zip ''ABCDEFGHIJKLMNOPQRSTUVWXYZ'' ''abcdefghijklmnopqrstuvwxyz'') c of
        None \<Rightarrow> c
      | Some l \<Rightarrow> l)"

text \<open>
  SQL \<open>LIKE\<close>: in the pattern \<open>%\<close> stands for any run of characters,
  \<open>_\<close> for any one character, and a backslash takes the next pattern character
  literally. The engine rejects a pattern that ends in a lone backslash; the patterns built by
  \<open>findAll\<close> end in \<open>%\<close>, so that branch only has to be total here.
\<close>

fun like_match :: "string \<Rightarrow> string \<Rightarrow> bool" where
  "like_match [] s = (s = [])"
| "like_match (p # ps) s =
     (if p = CHR ''%'' then
        like_match ps s \<or> (case s of [] \<Rightarrow> False | c # cs \<Rightarrow> like_match (p # ps) cs)
      else if p = CHR ''_'' then
        (case s of [] \<Rightarrow> False | c # cs \<Rightarrow> like_match ps cs)
      else if p = CHR 0x5C then
        (case ps of [] \<Rightarrow> False
         | q # qs \<Rightarrow> (case s of [] \<Rightarrow> False | c # cs \<Rightarrow> c = q \<and> like_match qs cs))
      else (case s of [] \<Rightarrow> False | c # cs \<Rightarrow> c = p \<and> like_match ps cs))"

declare like_match.simps(2) [simp del]

definition ilike :: "string \<Rightarrow> string \<Rightarrow> bool" where
  "ilike s pattern = like_match (map toLower pattern) (map toLower s)"

section \<open>Problem 5: error taxonomy (utils/errors.ts)\<close>

datatype ErrorClass =
  AppErrorClass | NotFoundErrorClass | ValidationErrorClass | ConflictErrorClass
  | UnauthorizedErrorClass

record AppError =
  errorClass :: ErrorClass
  message :: string
  statusCode :: int
  isOperational :: bool

definition NotFoundError :: "string \<Rightarrow> AppError" where
  "NotFoundError msg =
     \<lparr>errorClass = NotFoundErrorClass, message = msg, statusCode = 404, isOperational = True\<rparr>"

definition ValidationError :: "string \<Rightarrow> AppError" where
  "ValidationError msg =
     \<lparr>errorClass = ValidationErrorClass, message = msg, statusCode = 400, isOperational = True\<rparr>"

definition ConflictError :: "string \<Rightarrow> AppError" where
  "ConflictError msg =
     \<lparr>errorClass = ConflictErrorClass, message = msg, statusCode = 409, isOperational = True\<rparr>"

definition UnauthorizedError :: "string \<Rightarrow> AppError" where
  "UnauthorizedError msg =
     \<lparr>errorClass = UnauthorizedErrorClass, message = msg, statusCode = 401, isOperational = True\<rparr>"

text \<open>What a function throws: an \<open>AppError\<close> (\<open>instanceof AppError\<close> holds),
  or any other \<open>Error\<close>, of which only the message is observed.\<close>

datatype Thrown = App AppError | Other string

section \<open>Problem 5: the error translator (errorHandler)\<close>

record ErrorDetail =
  message_e :: string
  statusCode_e :: int

record ErrorEnvelope =
  success :: bool
  error :: ErrorDetail

record HttpResponse =
  httpStatus :: int
  json :: ErrorEnvelope

text \<open>The first argument is \<open>process.env.NODE_ENV\<close>. The call of
  \<open>console.error\<close> writes to the log only and is left out.\<close>

definition errorHandler :: "string option \<Rightarrow> Thrown \<Rightarrow> HttpResponse" where
  "errorHandler NODE_ENV err =
     (case err of
        App e \<Rightarrow>
          \<lparr>httpStatus = statusCode e,
           json = \<lparr>success = False,
                   error = \<lparr>message_e = message e, statusCode_e = statusCode e\<rparr>\<rparr>\<rparr>
      | Other msg \<Rightarrow>
          \<lparr>httpStatus = 500,
           json = \<lparr>success = False,
                   error = \<lparr>message_e = (if NODE_ENV = Some ''production''
                                           then ''Internal server error'' else msg),
                            statusCode_e = 500\<rparr>\<rparr>\<rparr>)"

section \<open>Problem 5: the auth gate (middleware/auth.ts)\<close>

text \<open>The two places of a request that the gate reads: the header \<open>x-api-key\<close> and
  the query parameter \<open>apiKey\<close>.\<close>

record Request =
  header_x_api_key :: "string option"
  query_apiKey :: "string option"

text \<open>The first argument is \<open>process.env.API_KEY\<close>; \<open>Inr ()\<close> is the call
  of \<open>next()\<close>.\<close>

definition authenticateApiKey :: "string option \<Rightarrow> Request \<Rightarrow> Thrown + unit" where
  "authenticateApiKey API_KEY req =
     (let validApiKey = API_KEY in
      if \<not> truthy validApiKey then Inr ()
      else
        let apiKeyFromHeader = header_x_api_key req;
            apiKeyFromQuery = query_apiKey req;
            providedApiKey = js_or apiKeyFromHeader apiKeyFromQuery
        in if \<not> truthy providedApiKey then
             Inl (App (UnauthorizedError
               ''API key is required. Please provide it in the X-API-Key header or apiKey query parameter.''))
           else if providedApiKey \<noteq> validApiKey then
             Inl (App (UnauthorizedError ''Invalid API key.''))
           else Inr ())"

section \<open>Problem 5: the resources table (config/database.ts)\<close>

text \<open>
  A row of \<open>resources\<close>. The field \<open>id'\<close> is the column \<open>id\<close>, a
  \<open>SERIAL\<close>: a signed 32-bit integer, read with \<open>sint\<close>.
  Timestamps are clock ticks; \<open>mapRowToResource\<close> renders them as ISO strings, which
  keeps equality and order, so a resource carries the ticks themselves.
\<close>

record Resource =
  id' :: "32 word"
  name :: string
  description :: string
  status :: string
  createdAt :: nat
  updatedAt :: nat

text \<open>
  The store behind \<open>pool\<close>: the table, the next value of the \<open>SERIAL\<close>
  sequence, and the number of statements that \<open>pool.query\<close> has executed.
\<close>

record Store =
  rows :: "Resource list"
  nextId :: int
  queries :: nat

text \<open>
  Binding a statement's parameters. A text parameter must not hold the code unit
  \<open>U+0000\<close>; an \<open>undefined\<close> parameter is sent as \<open>NULL\<close>. A number compared
  with the \<open>id\<close> column must lie in the column's 32-bit range; the engine's message
  names the value in decimal, or refuses it as ill-formed once JavaScript prints it with an
  exponent (that message goes on to quote the value, which is left out here). A statement
  whose binding fails is not executed.
\<close>

definition pg_text :: "string \<Rightarrow> Thrown + string" where
  "pg_text s =
     (if CHR 0x00 \<in> set s then Inl (Other ''invalid byte sequence for encoding \"UTF8\": 0x00'')
      else Inr s)"

definition pg_text_opt :: "string option \<Rightarrow> Thrown + string option" where
  "pg_text_opt v =
     (case v of
        None \<Rightarrow> Inr None
      | Some s \<Rightarrow> (case pg_text s of Inl e \<Rightarrow> Inl e | Inr s' \<Rightarrow> Inr (Some s')))"

definition pg_integer :: "int \<Rightarrow> Thrown + 32 word" where
  "pg_integer i =
     (if - 2147483648 \<le> i \<and> i \<le> 2147483647 then Inr (word_of_int i)
      else if \<bar>i\<bar> < 10 ^ 21 then
        Inl (Other (''value \"'' @ show_int i @ ''\" is out of range for type integer''))
      else Inl (Other ''invalid input syntax for type integer''))"

text \<open>
  Storing into a \<open>VARCHAR(n)\<close> column: a longer value is an error unless the excess
  is all spaces, which the engine cuts off.
\<close>

definition varchar :: "nat \<Rightarrow> string \<Rightarrow> Thrown + string" where
  "varchar n s =
     (if length s \<le> n then Inr s
      else if list_all (\<lambda>c. c = CHR '' '') (drop n s) then Inr (take n s)
      else Inl (Other (''value too long for type character varying('' @ show_nat n @ '')'')))"

text \<open>\<open>CHECK(status IN ('active', 'inactive'))\<close>\<close>

definition status_check :: "Resource \<Rightarrow> Thrown + Resource" where
  "status_check r =
     (if status r \<in> {''active'', ''inactive''} then Inr r
      else Inl (Other
        ''new row for relation \"resources\" violates check constraint \"resources_status_check\"''))"

text \<open>
  \<open>INSERT INTO resources (name, description, status) VALUES ($1, $2, $3) RETURNING *\<close>
  at clock value \<open>now\<close>. The parameters are bound and fitted to their columns; then the
  sequence hands out the id, which it cannot once its 32-bit range is used up; then the
  \<open>NOT NULL\<close>, \<open>CHECK\<close> and primary-key constraints are tested. A rejection
  after the sequence has handed out the id leaves a gap: the sequence is not set back.
\<close>

definition pg_insert ::
  "nat \<Rightarrow> string option \<Rightarrow> string option \<Rightarrow> string \<Rightarrow> Store
     \<Rightarrow> (Thrown + Resource list) \<times> Store" where
  "pg_insert now n d s st =
     (let st1 = st\<lparr>queries := queries st + 1\<rparr> in
      case pg_text_opt n of
        Inl e \<Rightarrow> (Inl e, st1)
      | Inr n1 \<Rightarrow>
     (case pg_text_opt d of
        Inl e \<Rightarrow> (Inl e, st1)
      | Inr d1 \<Rightarrow>
     (case pg_text s of
        Inl e \<Rightarrow> (Inl e, st1)
      | Inr s1 \<Rightarrow>
     (case (case n1 of None \<Rightarrow> Inr None
            | Some nv \<Rightarrow> (case varchar 255 nv of Inl e \<Rightarrow> Inl e | Inr nv' \<Rightarrow> Inr (Some nv'))) of
        Inl e \<Rightarrow> (Inl e, st1)
      | Inr n2 \<Rightarrow>
     (case varchar 20 s1 of
        Inl e \<Rightarrow> (Inl e, st1)
      | Inr s2 \<Rightarrow>
          if 2147483647 < nextId st then
            (Inl (Other ''nextval: reached maximum value of sequence \"resources_id_seq\" (2147483647)''),
             st1)
          else
            (let st2 = st1\<lparr>nextId := nextId st + 1\<rparr> in
             case n2 of
               None \<Rightarrow>
                 (Inl (Other ''null value in column \"name\" of relation \"resources\" violates not-null constraint''),
                  st2)
             | Some nv \<Rightarrow>
            (case d1 of
               None \<Rightarrow>
                 (Inl (Other ''null value in column \"description\" of relation \"resources\" violates not-null constraint''),
                  st2)
             | Some dv \<Rightarrow>
            (case status_check \<lparr>id' = word_of_int (nextId st), name = nv, description = dv,
                                 status = s2, createdAt = now, updatedAt = now\<rparr> of
               Inl e \<Rightarrow> (Inl e, st2)
             | Inr row \<Rightarrow>
                 if id' row \<in> set (map id' (rows st)) then
                   (Inl (Other ''duplicate key value violates unique constraint \"resources_pkey\"''),
                    st2)
                 else (Inr [row], st2\<lparr>rows := rows st @ [row]\<rparr>)))))))))"

text \<open>One item of the \<open>SET\<close> list that \<open>update\<close> builds.\<close>

datatype Assignment =
  SetName string | SetDescription string | SetStatus string | SetUpdatedAtCurrentTimestamp

text \<open>Binding the parameters of the \<open>SET\<close> list, in their order.\<close>

fun bind_assignment :: "Assignment \<Rightarrow> Thrown + Assignment" where
  "bind_assignment (SetName v) =
     (case pg_text v of Inl e \<Rightarrow> Inl e | Inr v' \<Rightarrow> Inr (SetName v'))"
| "bind_assignment (SetDescription v) =
     (case pg_text v of Inl e \<Rightarrow> Inl e | Inr v' \<Rightarrow> Inr (SetDescription v'))"
| "bind_assignment (SetStatus v) =
     (case pg_text v of Inl e \<Rightarrow> Inl e | Inr v' \<Rightarrow> Inr (SetStatus v'))"
| "bind_assignment SetUpdatedAtCurrentTimestamp = Inr SetUpdatedAtCurrentTimestamp"

fun bind_assignments :: "Assignment list \<Rightarrow> Thrown + Assignment list" where
  "bind_assignments [] = Inr []"
| "bind_assignments (a # as) =
     (case bind_assignment a of
        Inl e \<Rightarrow> Inl e
      | Inr a' \<Rightarrow>
          (case bind_assignments as of
             Inl e \<Rightarrow> Inl e
           | Inr as' \<Rightarrow> Inr (a' # as')))"

text \<open>The new value of a row under the \<open>SET\<close> list, fitted to the columns and tested
  against the \<open>CHECK\<close> constraint.\<close>

fun apply_assignment :: "nat \<Rightarrow> Assignment \<Rightarrow> Resource \<Rightarrow> Thrown + Resource" where
  "apply_assignment now (SetName v) r =
     (case varchar 255 v of Inl e \<Rightarrow> Inl e | Inr v' \<Rightarrow> Inr (r\<lparr>name := v'\<rparr>))"
| "apply_assignment now (SetDescription v) r = Inr (r\<lparr>description := v\<rparr>)"
| "apply_assignment now (SetStatus v) r =
     (case varchar 20 v of Inl e \<Rightarrow> Inl e | Inr v' \<Rightarrow> Inr (r\<lparr>status := v'\<rparr>))"
| "apply_assignment now SetUpdatedAtCurrentTimestamp r = Inr (r\<lparr>updatedAt := now\<rparr>)"

fun apply_assignments :: "nat \<Rightarrow> Assignment list \<Rightarrow> Resource \<Rightarrow> Thrown + Resource" where
  "apply_assignments now [] r = status_check r"
| "apply_assignments now (a # as) r =
     (case apply_assignment now a r of
        Inl e \<Rightarrow> Inl e
      | Inr r' \<Rightarrow> apply_assignments now as r')"

text \<open>
  The new table and the \<open>RETURNING\<close> rows of an \<open>UPDATE ... WHERE id = k\<close>:
  every row with that id is rewritten; one rejected row rejects the statement.
\<close>

fun update_where ::
  "32 word \<Rightarrow> (Resource \<Rightarrow> Thrown + Resource) \<Rightarrow> Resource list
     \<Rightarrow> Thrown + (Resource list \<times> Resource list)" where
  "update_where k f [] = Inr ([], [])"
| "update_where k f (r # rs) =
     (if id' r = k then
        (case f r of
           Inl e \<Rightarrow> Inl e
         | Inr r' \<Rightarrow>
             (case update_where k f rs of
                Inl e \<Rightarrow> Inl e
              | Inr (tbl, ret) \<Rightarrow> Inr (r' # tbl, r' # ret)))
      else
        (case update_where k f rs of
           Inl e \<Rightarrow> Inl e
         | Inr (tbl, ret) \<Rightarrow> Inr (r # tbl, ret)))"

definition pg_update ::
  "nat \<Rightarrow> Assignment list \<Rightarrow> int \<Rightarrow> Store \<Rightarrow> (Thrown + Resource list) \<times> Store" where
  "pg_update now sets i st =
     (let st1 = st\<lparr>queries := queries st + 1\<rparr> in
      case bind_assignments sets of
        Inl e \<Rightarrow> (Inl e, st1)
      | Inr sets' \<Rightarrow>
     (case pg_integer i of
        Inl e \<Rightarrow> (Inl e, st1)
      | Inr k \<Rightarrow>
     (case update_where k (apply_assignments now sets') (rows st) of
        Inl e \<Rightarrow> (Inl e, st1)
      | Inr (tbl, ret) \<Rightarrow> (Inr ret, st1\<lparr>rows := tbl\<rparr>))))"

text \<open>\<open>ORDER BY "createdAt" DESC\<close>. SQL leaves the order of rows with equal keys open;
  the model takes one such order.\<close>

definition order_by_createdAt_desc :: "Resource list \<Rightarrow> Resource list" where
  "order_by_createdAt_desc rs = rev (sort_key createdAt rs)"

text \<open>
  What the schema guarantees of every stored table: the primary key is unique, each row has
  passed the column types and the \<open>CHECK\<close> constraint, and the sequence, which starts
  at 1, is ahead of every id it has handed out.
\<close>

definition row_ok :: "Resource \<Rightarrow> bool" where
  "row_ok r = ((status r = ''active'' \<or> status r = ''inactive'') \<and> length (name r) \<le> 255)"

definition table_ok :: "Store \<Rightarrow> bool" where
  "table_ok st =
     (distinct (map id' (rows st))
      \<and> list_all (\<lambda>r. row_ok r \<and> sint (id' r) < nextId st) (rows st)
      \<and> 1 \<le> nextId st)"

section \<open>Problem 5: the repository (models/ResourceModel.ts)\<close>

record CreateResourceDto =
  name_c :: "string option"
  description_c :: "string option"
  status_c :: "string option"

record UpdateResourceDto =
  name_u :: "string option"
  description_u :: "string option"
  status_u :: "string option"

record ResourceFilters =
  status_f :: "string option"
  search_f :: "string option"
  page_f :: "int option"
  limit_f :: "int option"

record Pagination =
  page :: int
  limit :: int
  total_p :: int
  totalPages :: int

record PaginatedResponse =
  data :: "Resource list"
  pagination :: Pagination

definition mapRowToResource :: "Resource \<Rightarrow> Resource" where
  "mapRowToResource row =
     \<lparr>id' = id' row, name = name row, description = description row, status = status row,
      createdAt = createdAt row, updatedAt = updatedAt row\<rparr>"

text \<open>\<open>result.rows[0]\<close> passed to \<open>mapRowToResource\<close>: on an empty result the
  property read on \<open>undefined\<close> throws.\<close>

definition first_row :: "Resource list \<Rightarrow> Thrown + Resource" where
  "first_row rs =
     (case rs of
        [] \<Rightarrow> Inl (Other ''Cannot read properties of undefined'')
      | r # _ \<Rightarrow> Inr (mapRowToResource r))"

definition ResourceModel_create ::
  "nat \<Rightarrow> CreateResourceDto \<Rightarrow> Store \<Rightarrow> (Thrown + Resource) \<times> Store" where
  "ResourceModel_create now dto st =
     (let status = (case status_c dto of
                      None \<Rightarrow> ''active''
                    | Some s \<Rightarrow> if s = [] then ''active'' else s)
      in case pg_insert now (name_c dto) (description_c dto) status st of
           (Inl e, st') \<Rightarrow> (Inl e, st')
         | (Inr result_rows, st') \<Rightarrow> (first_row result_rows, st'))"

text \<open>\<open>SELECT * FROM resources WHERE id = $1\<close>.\<close>

definition ResourceModel_findById ::
  "int \<Rightarrow> Store \<Rightarrow> (Thrown + Resource option) \<times> Store" where
  "ResourceModel_findById i st =
     (let st' = st\<lparr>queries := queries st + 1\<rparr> in
      case pg_integer i of
        Inl e \<Rightarrow> (Inl e, st')
      | Inr k \<Rightarrow>
          (let result_rows = filter (\<lambda>r. id' r = k) (rows st)
           in (case result_rows of
                 [] \<Rightarrow> Inr None
               | r # _ \<Rightarrow> Inr (Some (mapRowToResource r)), st')))"

text \<open>One conjunct that \<open>findAll\<close> appends to \<open>WHERE 1=1\<close>, with its
  parameters.\<close>

datatype Condition = StatusEquals string | NameOrDescriptionILike string string

fun holds :: "Condition \<Rightarrow> Resource \<Rightarrow> bool" where
  "holds (StatusEquals s) r = (status r = s)"
| "holds (NameOrDescriptionILike p q) r = (ilike (name r) p \<or> ilike (description r) q)"

definition where_clause :: "Condition list \<Rightarrow> Resource \<Rightarrow> bool" where
  "where_clause conds r = list_all (\<lambda>c. holds c r) conds"

text \<open>The conjuncts that \<open>findAll\<close> collects from the filters.\<close>

definition findAll_conditions :: "ResourceFilters \<Rightarrow> Condition list" where
  "findAll_conditions filters =
     (if truthy (status_f filters) then [StatusEquals (the (status_f filters))] else [])
     @ (if truthy (search_f filters) then
          (let searchTerm = ''%'' @ the (search_f filters) @ ''%''
           in [NameOrDescriptionILike searchTerm searchTerm])
        else [])"

text \<open>Binding the parameters of the conjuncts, in their order.\<close>

fun bind_condition :: "Condition \<Rightarrow> Thrown + Condition" where
  "bind_condition (StatusEquals s) =
     (case pg_text s of Inl e \<Rightarrow> Inl e | Inr s' \<Rightarrow> Inr (StatusEquals s'))"
| "bind_condition (NameOrDescriptionILike p q) =
     (case pg_text p of
        Inl e \<Rightarrow> Inl e
      | Inr p' \<Rightarrow>
          (case pg_text q of Inl e \<Rightarrow> Inl e | Inr q' \<Rightarrow> Inr (NameOrDescriptionILike p' q')))"

fun bind_conditions :: "Condition list \<Rightarrow> Thrown + Condition list" where
  "bind_conditions [] = Inr []"
| "bind_conditions (c # cs) =
     (case bind_condition c of
        Inl e \<Rightarrow> Inl e
      | Inr c' \<Rightarrow>
          (case bind_conditions cs of
             Inl e \<Rightarrow> Inl e
           | Inr cs' \<Rightarrow> Inr (c' # cs')))"

text \<open>
  \<open>findAll\<close> runs the count query, then the page query. The engine rejects a negative
  \<open>LIMIT\<close> or \<open>OFFSET\<close>. \<open>filters.page || 1\<close> and
  \<open>filters.limit || 10\<close> take the default for \<open>undefined\<close> and for \<open>0\<close>.
\<close>

definition ResourceModel_findAll ::
  "ResourceFilters \<Rightarrow> Store \<Rightarrow> (Thrown + PaginatedResponse) \<times> Store" where
  "ResourceModel_findAll filters st =
     (let page = (case page_f filters of None \<Rightarrow> 1 | Some p \<Rightarrow> if p = 0 then 1 else p);
          limit = (case limit_f filters of None \<Rightarrow> 10 | Some l \<Rightarrow> if l = 0 then 10 else l);
          offset = (page - 1) * limit;
          st1 = st\<lparr>queries := queries st + 1\<rparr>;
          st2 = st1\<lparr>queries := queries st1 + 1\<rparr>
      in case bind_conditions (findAll_conditions filters) of
           Inl e \<Rightarrow> (Inl e, st1)
         | Inr conds \<Rightarrow>
             (let matching = filter (where_clause conds) (rows st);
                  total = int (length matching)
              in if limit < 0 then (Inl (Other ''LIMIT must not be negative''), st2)
                 else if offset < 0 then (Inl (Other ''OFFSET must not be negative''), st2)
                 else
                   (Inr \<lparr>data = map mapRowToResource
                                   (take (nat limit)
                                      (drop (nat offset) (order_by_createdAt_desc matching))),
                         pagination =
                           \<lparr>page = page, limit = limit, total_p = total,
                            totalPages = \<lceil>rat_of_int total / rat_of_int limit\<rceil>\<rparr>\<rparr>,
                    st2)))"

definition ResourceModel_update ::
  "nat \<Rightarrow> int \<Rightarrow> UpdateResourceDto \<Rightarrow> Store \<Rightarrow> (Thrown + Resource option) \<times> Store" where
  "ResourceModel_update now i dto st =
     (case ResourceModel_findById i st of
        (Inl e, st1) \<Rightarrow> (Inl e, st1)
      | (Inr None, st1) \<Rightarrow> (Inr None, st1)
      | (Inr (Some existing), st1) \<Rightarrow>
          (let updates =
                 (case name_u dto of None \<Rightarrow> [] | Some v \<Rightarrow> [SetName v])
                 @ (case description_u dto of None \<Rightarrow> [] | Some v \<Rightarrow> [SetDescription v])
                 @ (case status_u dto of None \<Rightarrow> [] | Some v \<Rightarrow> [SetStatus v])
           in if length updates = 0 then (Inr (Some existing), st1)
              else
                (case pg_update now (updates @ [SetUpdatedAtCurrentTimestamp]) i st1 of
                   (Inl e, st2) \<Rightarrow> (Inl e, st2)
                 | (Inr result_rows, st2) \<Rightarrow>
                     (case result_rows of
                        [] \<Rightarrow> (Inr None, st2)
                      | r # _ \<Rightarrow> (Inr (Some (mapRowToResource r)), st2)))))"

text \<open>\<open>DELETE FROM resources WHERE id = $1\<close>; the result is
  \<open>rowCount > 0\<close>.\<close>

definition ResourceModel_delete :: "int \<Rightarrow> Store \<Rightarrow> (Thrown + bool) \<times> Store" where
  "ResourceModel_delete i st =
     (let st1 = st\<lparr>queries := queries st + 1\<rparr> in
      case pg_integer i of
        Inl e \<Rightarrow> (Inl e, st1)
      | Inr k \<Rightarrow>
          (let rowCount = length (filter (\<lambda>r. id' r = k) (rows st))
           in (Inr (rowCount > 0), st1\<lparr>rows := filter (\<lambda>r. id' r \<noteq> k) (rows st)\<rparr>)))"

section \<open>Problem 5: the service (services/ResourceService.ts)\<close>

definition status_message :: string where
  "status_message = ''Status must be either \"active\" or \"inactive\"''"

definition validateCreateData :: "CreateResourceDto \<Rightarrow> Thrown + unit" where
  "validateCreateData dto =
     (if \<not> truthy (name_c dto) \<or> length (trim (the (name_c dto))) = 0 then
        Inl (App (ValidationError ''Name is required''))
      else if length (the (name_c dto)) > 255 then
        Inl (App (ValidationError ''Name must be less than 255 characters''))
      else if \<not> truthy (description_c dto) \<or> length (trim (the (description_c dto))) = 0 then
        Inl (App (ValidationError ''Description is required''))
      else if length (the (description_c dto)) > 1000 then
        Inl (App (ValidationError ''Description must be less than 1000 characters''))
      else if truthy (status_c dto) \<and> the (status_c dto) \<notin> set [''active'', ''inactive''] then
        Inl (App (ValidationError status_message))
      else Inr ())"

definition validateUpdateData :: "UpdateResourceDto \<Rightarrow> Thrown + unit" where
  "validateUpdateData dto =
     (if name_u dto \<noteq> None \<and> length (trim (the (name_u dto))) = 0 then
        Inl (App (ValidationError ''Name cannot be empty''))
      else if name_u dto \<noteq> None \<and> length (the (name_u dto)) > 255 then
        Inl (App (ValidationError ''Name must be less than 255 characters''))
      else if description_u dto \<noteq> None \<and> length (trim (the (description_u dto))) = 0 then
        Inl (App (ValidationError ''Description cannot be empty''))
      else if description_u dto \<noteq> None \<and> length (the (description_u dto)) > 1000 then
        Inl (App (ValidationError ''Description must be less than 1000 characters''))
      else if status_u dto \<noteq> None \<and> the (status_u dto) \<notin> set [''active'', ''inactive''] then
        Inl (App (ValidationError status_message))
      else Inr ())"

definition not_found_message :: "int \<Rightarrow> string" where
  "not_found_message i = ''Resource with id '' @ show_int i @ '' not found''"

definition ResourceService_create ::
  "nat \<Rightarrow> CreateResourceDto \<Rightarrow> Store \<Rightarrow> (Thrown + Resource) \<times> Store" where
  "ResourceService_create now dto st =
     (case validateCreateData dto of
        Inl e \<Rightarrow> (Inl e, st)
      | Inr _ \<Rightarrow> ResourceModel_create now dto st)"



definition ResourceService_update ::
  "nat \<Rightarrow> int \<Rightarrow> UpdateResourceDto \<Rightarrow> Store \<Rightarrow> (Thrown + Resource) \<times> Store" where
  "ResourceService_update now i dto st =
     (case validateUpdateData dto of
        Inl e \<Rightarrow> (Inl e, st)
      | Inr _ \<Rightarrow>
          (case ResourceModel_update now i dto st of
             (Inl e, st') \<Rightarrow> (Inl e, st')
           | (Inr None, st') \<Rightarrow> (Inl (App (NotFoundError (not_found_message i))), st')
           | (Inr (Some resource), st') \<Rightarrow> (Inr resource, st')))"

definition ResourceService_delete :: "int \<Rightarrow> Store \<Rightarrow> (Thrown + unit) \<times> Store" where
  "ResourceService_delete i st =
     (case ResourceModel_delete i st of
        (Inl e, st') \<Rightarrow> (Inl e, st')
      | (Inr False, st') \<Rightarrow> (Inl (App (NotFoundError (not_found_message i))), st')
      | (Inr True, st') \<Rightarrow> (Inr (), st'))"

section \<open>The specification's notions, used to state the claims\<close>


text \<open>
  The key that a request supplies, in the specification's words: the header
  \<open>X-API-Key\<close> when it carries a non-empty value, otherwise the query parameter
  \<open>apiKey\<close> when that carries one.
\<close>

definition supplied_key :: "Request \<Rightarrow> string option" where
  "supplied_key req =
     (case header_x_api_key req of
        Some h \<Rightarrow> if h \<noteq> [] then Some h
                  else (case query_apiKey req of Some q \<Rightarrow> if q \<noteq> [] then Some q else None | None \<Rightarrow> None)
      | None \<Rightarrow> (case query_apiKey req of Some q \<Rightarrow> if q \<noteq> [] then Some q else None | None \<Rightarrow> None))"

text \<open>
  The five rules of create validation, in the order the specification lists them, each
  with its message: what is violated, and what the caller is told. A field is blank when it
  is absent, empty or white space only. A status, if present, must be exactly \<open>active\<close>
  or \<open>inactive\<close>.
\<close>

definition blank :: "string option \<Rightarrow> bool" where
  "blank v = (case v of None \<Rightarrow> True | Some s \<Rightarrow> trim s = [])"

definition longer_than :: "nat \<Rightarrow> string option \<Rightarrow> bool" where
  "longer_than n v = (case v of None \<Rightarrow> False | Some s \<Rightarrow> n < length s)"

definition not_in_enum :: "string option \<Rightarrow> bool" where
  "not_in_enum v = (case v of None \<Rightarrow> False | Some s \<Rightarrow> s \<noteq> ''active'' \<and> s \<noteq> ''inactive'')"

definition create_rules :: "((CreateResourceDto \<Rightarrow> bool) \<times> string) list" where
  "create_rules =
     [(\<lambda>d. blank (name_c d), ''Name is required''),
      (\<lambda>d. longer_than 255 (name_c d), ''Name must be less than 255 characters''),
      (\<lambda>d. blank (description_c d), ''Description is required''),
      (\<lambda>d. longer_than 1000 (description_c d), ''Description must be less than 1000 characters''),
      (\<lambda>d. not_in_enum (status_c d), status_message)]"

definition first_violation :: "(('a \<Rightarrow> bool) \<times> string) list \<Rightarrow> 'a \<Rightarrow> string option" where
  "first_violation rules d = map_option snd (find (\<lambda>(violated, msg). violated d) rules)"

text \<open>The create input with an empty-string status taken as no status.\<close>

definition empty_status_omitted :: "CreateResourceDto \<Rightarrow> CreateResourceDto" where
  "empty_status_omitted d = (if status_c d = Some [] then d\<lparr>status_c := None\<rparr> else d)"

text \<open>An error of a given class and status code whose message has a given part.\<close>

definition error_with :: "ErrorClass \<Rightarrow> int \<Rightarrow> string \<Rightarrow> AppError \<Rightarrow> bool" where
  "error_with c code part e =
     (errorClass e = c \<and> statusCode e = code \<and> sublist part (message e))"

text \<open>The ids that the \<open>id\<close> column can hold, and the texts that a text column can.\<close>

definition int4 :: "int \<Rightarrow> bool" where
  "int4 i = (- 2147483648 \<le> i \<and> i \<le> 2147483647)"

definition nul_free :: "string \<Rightarrow> bool" where
  "nul_free s = (CHR 0x00 \<notin> set s)"


text \<open>
  The search predicate, in the specification's words: the term occurs in the text as a
  substring, letter case aside. A filter matches a row when the row has the given status
  and the search term occurs in its name or in its description.
\<close>

definition contains_ci :: "string \<Rightarrow> string \<Rightarrow> bool" where
  "contains_ci x s = sublist (map toLower x) (map toLower s)"

definition matches :: "ResourceFilters \<Rightarrow> Resource \<Rightarrow> bool" where
  "matches f r =
     ((case status_f f of None \<Rightarrow> True | Some s \<Rightarrow> status r = s)
      \<and> (case search_f f of
            None \<Rightarrow> True
          | Some x \<Rightarrow> contains_ci x (name r) \<or> contains_ci x (description r)))"

text \<open>The characters that \<open>LIKE\<close> does not take literally.\<close>

definition like_special :: "char set" where
  "like_special = {CHR ''%'', CHR ''_'', CHR 0x5C}"

section \<open>The sum functions where doubles are exact\<close>



















section \<open>The error translator\<close>

text \<open>
  C8. For an \<open>AppError\<close> the response carries that error's status code and the envelope
  \<open>{success: false, error: {message, statusCode}}\<close>; for any other error the status is
  500, with the raw message when \<open>NODE_ENV\<close> is not \<open>production\<close> and with
  \<open>Internal server error\<close> when it is.
\<close>

theorem errorHandler_translates:
  "errorHandler env (App e) =
     \<lparr>httpStatus = statusCode e,
      json = \<lparr>success = False, error = \<lparr>message_e = message e, statusCode_e = statusCode e\<rparr>\<rparr>\<rparr>
   \<and> (env \<noteq> Some ''production'' \<longrightarrow>
        errorHandler env (Other msg) =
          \<lparr>httpStatus = 500,
           json = \<lparr>success = False, error = \<lparr>message_e = msg, statusCode_e = 500\<rparr>\<rparr>\<rparr>)
   \<and> (env = Some ''production'' \<longrightarrow>
        errorHandler env (Other msg) =
          \<lparr>httpStatus = 500,
           json = \<lparr>success = False,
                   error = \<lparr>message_e = ''Internal server error'', statusCode_e = 500\<rparr>\<rparr>\<rparr>)
   \<and> httpStatus (errorHandler env (App (ValidationError m))) = 400
   \<and> httpStatus (errorHandler env (App (UnauthorizedError m))) = 401
   \<and> httpStatus (errorHandler env (App (NotFoundError m))) = 404
   \<and> httpStatus (errorHandler env (App (ConflictError m))) = 409"
proof (intro conjI impI)
  show "errorHandler env (App e) =
     \<lparr>httpStatus = statusCode e,
      json = \<lparr>success = False, error = \<lparr>message_e = message e, statusCode_e = statusCode e\<rparr>\<rparr>\<rparr>"
    by (simp add: errorHandler_def)
  then show "httpStatus (errorHandler env (App (ValidationError m))) = 400"
    and "httpStatus (errorHandler env (App (UnauthorizedError m))) = 401"
    and "httpStatus (errorHandler env (App (NotFoundError m))) = 404"
    and "httpStatus (errorHandler env (App (ConflictError m))) = 409"
    by (simp_all add: errorHandler_def ValidationError_def UnauthorizedError_def
          NotFoundError_def ConflictError_def)
next
  assume "env \<noteq> Some ''production''"
  then show "errorHandler env (Other msg) =
          \<lparr>httpStatus = 500,
           json = \<lparr>success = False, error = \<lparr>message_e = msg, statusCode_e = 500\<rparr>\<rparr>\<rparr>"
    by (simp add: errorHandler_def)
next
  assume "env = Some ''production''"
  then show "errorHandler env (Other msg) =
          \<lparr>httpStatus = 500,
           json = \<lparr>success = False,
                   error = \<lparr>message_e = ''Internal server error'', statusCode_e = 500\<rparr>\<rparr>\<rparr>"
    by (simp add: errorHandler_def)
qed

theorem errorHandler_translates_witness:
  "httpStatus (errorHandler (Some ''production'') (App (NotFoundError ''Resource with id 7 not found''))) = 404
   \<and> message_e (error (json (errorHandler (Some ''production'') (Other ''connect ECONNREFUSED'')))) = ''Internal server error''
   \<and> message_e (error (json (errorHandler (Some ''test'') (Other ''connect ECONNREFUSED'')))) = ''connect ECONNREFUSED''"
  using errorHandler_translates [where env = "Some ''production''" and msg = "''connect ECONNREFUSED''"
          and e = "NotFoundError ''Resource with id 7 not found''"]
        errorHandler_translates [where env = "Some ''test''" and msg = "''connect ECONNREFUSED''"
          and e = "NotFoundError ''Resource with id 7 not found''"]
  by (simp add: NotFoundError_def)

section \<open>The auth gate\<close>

lemma supplied_key_js_or:
  "supplied_key req = (if truthy (js_or (header_x_api_key req) (query_apiKey req))
                        then js_or (header_x_api_key req) (query_apiKey req) else None)"
  by (simp add: supplied_key_def js_or_def truthy_def split: option.splits)

lemma required_message_contains:
  "error_with UnauthorizedErrorClass 401 ''API key is required''
     (UnauthorizedError
        ''API key is required. Please provide it in the X-API-Key header or apiKey query parameter.'')"
  by (simp add: error_with_def UnauthorizedError_def sublist_Cons_right)

lemma invalid_message_contains:
  "error_with UnauthorizedErrorClass 401 ''Invalid API key'' (UnauthorizedError ''Invalid API key.'')"
  by (simp add: error_with_def UnauthorizedError_def sublist_Cons_right)

text \<open>
  C7. With a configured (non-empty) server key: a request that supplies no key is refused
  with an \<open>UnauthorizedError\<close> of status 401 whose message contains
  \<open>API key is required\<close>; a request whose supplied key differs from the configured one is
  refused with one whose message contains \<open>Invalid API key\<close>; a request whose supplied key
  equals it proceeds. With no configured key every request proceeds. The supplied key is the
  header's when the header carries one, else the query parameter's.
\<close>

theorem authenticateApiKey_gate:
  "(truthy API_KEY \<and> supplied_key req = None \<longrightarrow>
      (\<exists>e. authenticateApiKey API_KEY req = Inl (App e)
         \<and> error_with UnauthorizedErrorClass 401 ''API key is required'' e))
   \<and> (truthy API_KEY \<and> supplied_key req = Some p \<and> Some p \<noteq> API_KEY \<longrightarrow>
      (\<exists>e. authenticateApiKey API_KEY req = Inl (App e)
         \<and> error_with UnauthorizedErrorClass 401 ''Invalid API key'' e))
   \<and> (truthy API_KEY \<and> supplied_key req = Some p \<and> Some p = API_KEY \<longrightarrow>
      authenticateApiKey API_KEY req = Inr ())
   \<and> (\<not> truthy API_KEY \<longrightarrow> authenticateApiKey API_KEY req = Inr ())"
proof -
  let ?provided = "js_or (header_x_api_key req) (query_apiKey req)"
  have none: "supplied_key req = None \<Longrightarrow> \<not> truthy ?provided"
    by (simp add: supplied_key_js_or split: if_splits) (simp add: truthy_def)
  have some: "supplied_key req = Some p \<Longrightarrow> truthy ?provided \<and> ?provided = Some p"
    by (simp add: supplied_key_js_or split: if_splits)
  show ?thesis
    using none some required_message_contains invalid_message_contains
    by (auto simp: authenticateApiKey_def Let_def)
qed

theorem authenticateApiKey_gate_witness:
  "(\<exists>e. authenticateApiKey (Some ''test-api-key-12345'')
             \<lparr>header_x_api_key = None, query_apiKey = None\<rparr> = Inl (App e)
           \<and> error_with UnauthorizedErrorClass 401 ''API key is required'' e)
   \<and> (\<exists>e. authenticateApiKey (Some ''test-api-key-12345'')
             \<lparr>header_x_api_key = Some ''invalid-key'', query_apiKey = None\<rparr> = Inl (App e)
           \<and> error_with UnauthorizedErrorClass 401 ''Invalid API key'' e)
   \<and> authenticateApiKey (Some ''test-api-key-12345'')
        \<lparr>header_x_api_key = None, query_apiKey = Some ''test-api-key-12345''\<rparr> = Inr ()
   \<and> authenticateApiKey None \<lparr>header_x_api_key = None, query_apiKey = None\<rparr> = Inr ()"
proof -
  let ?key = "Some ''test-api-key-12345''"
  let ?none = "\<lparr>header_x_api_key = None, query_apiKey = None\<rparr>"
  let ?bad = "\<lparr>header_x_api_key = Some ''invalid-key'', query_apiKey = None\<rparr>"
  let ?good = "\<lparr>header_x_api_key = None, query_apiKey = Some ''test-api-key-12345''\<rparr>"
  have k: "truthy ?key" and nk: "\<not> truthy None"
    by (simp_all add: truthy_def)
  have s1: "supplied_key ?none = None"
    and s2: "supplied_key ?bad = Some ''invalid-key''"
    and s3: "supplied_key ?good = Some ''test-api-key-12345''"
    by (simp_all add: supplied_key_def)
  have d: "Some ''invalid-key'' \<noteq> ?key" by simp
  from authenticateApiKey_gate [where API_KEY = ?key and req = ?none] k s1
  have a: "\<exists>e. authenticateApiKey ?key ?none = Inl (App e)
           \<and> error_with UnauthorizedErrorClass 401 ''API key is required'' e"
    by blast
  from authenticateApiKey_gate [where API_KEY = ?key and req = ?bad and p = "''invalid-key''"] k s2 d
  have b: "\<exists>e. authenticateApiKey ?key ?bad = Inl (App e)
           \<and> error_with UnauthorizedErrorClass 401 ''Invalid API key'' e"
    by blast
  from authenticateApiKey_gate [where API_KEY = ?key and req = ?good and p = "''test-api-key-12345''"] k s3
  have c: "authenticateApiKey ?key ?good = Inr ()"
    by blast
  from authenticateApiKey_gate [where API_KEY = None and req = ?none] nk
  have e: "authenticateApiKey None ?none = Inr ()"
    by blast
  from a b c e show ?thesis by blast
qed

section \<open>Service validation\<close>



lemma trim_Nil [simp]: "trim [] = []"
  by (simp add: trim_def)

lemma blank_iff: "blank v \<longleftrightarrow> \<not> truthy v \<or> length (trim (the v)) = 0"
  by (cases v) (auto simp: blank_def truthy_def)

lemma longer_than_iff: "\<not> blank v \<Longrightarrow> longer_than n v \<longleftrightarrow> n < length (the v)"
  by (cases v) (auto simp: blank_def longer_than_def)

lemma not_in_enum_iff:
  "v \<noteq> Some [] \<Longrightarrow> not_in_enum v \<longleftrightarrow> truthy v \<and> the v \<notin> set [''active'', ''inactive'']"
  by (cases v) (auto simp: not_in_enum_def truthy_def)

lemma validateCreateData_chain:
  assumes "status_c d \<noteq> Some []"
  shows "validateCreateData d =
     (if blank (name_c d) then Inl (App (ValidationError ''Name is required''))
      else if longer_than 255 (name_c d) then
        Inl (App (ValidationError ''Name must be less than 255 characters''))
      else if blank (description_c d) then Inl (App (ValidationError ''Description is required''))
      else if longer_than 1000 (description_c d) then
        Inl (App (ValidationError ''Description must be less than 1000 characters''))
      else if not_in_enum (status_c d) then Inl (App (ValidationError status_message))
      else Inr ())"
  unfolding validateCreateData_def
  by (simp add: blank_iff longer_than_iff not_in_enum_iff [OF assms] del: set_simps)

lemma validateCreateData_empty_status:
  "validateCreateData d = validateCreateData (empty_status_omitted d)"
  by (simp add: empty_status_omitted_def validateCreateData_def truthy_def)

lemma validateCreateData_rules:
  "(case first_violation create_rules (empty_status_omitted d) of
      None \<Rightarrow> validateCreateData d = Inr ()
    | Some msg \<Rightarrow>
        (\<exists>e. validateCreateData d = Inl (App e) \<and> errorClass e = ValidationErrorClass
           \<and> statusCode e = 400 \<and> message e = msg))"
proof -
  let ?d = "empty_status_omitted d"
  have s: "status_c ?d \<noteq> Some []"
    by (simp add: empty_status_omitted_def)
  have e: "errorClass (ValidationError m) = ValidationErrorClass
           \<and> statusCode (ValidationError m) = 400 \<and> message (ValidationError m) = m" for m
    by (simp add: ValidationError_def)
  show ?thesis
    unfolding validateCreateData_empty_status [of d] validateCreateData_chain [OF s]
    by (simp add: first_violation_def create_rules_def e)
qed

text \<open>
  C4, as amended. Create validation takes an empty-string status as no status. With that, it
  fails on the first violated rule, in the order name presence, name length, description
  presence, description length, status enum, with a \<open>ValidationError\<close> of status 400 that
  carries that rule's message, and the five messages differ. A name of 255 characters is
  never refused for its length; a name of 256 characters that passes the presence rule is
  refused with a message containing \<open>255\<close>.
\<close>

theorem validateCreateData_first_violation:
  "(case first_violation create_rules (empty_status_omitted d) of
      None \<Rightarrow> validateCreateData d = Inr ()
    | Some msg \<Rightarrow>
        (\<exists>e. validateCreateData d = Inl (App e) \<and> errorClass e = ValidationErrorClass
           \<and> statusCode e = 400 \<and> message e = msg))
   \<and> distinct (map snd create_rules)
   \<and> (name_c d = Some n \<and> length n = 255 \<longrightarrow>
        \<not> (\<exists>e. validateCreateData d = Inl (App e)
               \<and> message e = ''Name must be less than 255 characters''))
   \<and> (name_c d = Some n \<and> trim n \<noteq> [] \<and> length n = 256 \<longrightarrow>
        (\<exists>e. validateCreateData d = Inl (App e)
           \<and> error_with ValidationErrorClass 400 ''255'' e))"
proof (intro conjI impI)
  show "case first_violation create_rules (empty_status_omitted d) of
      None \<Rightarrow> validateCreateData d = Inr ()
    | Some msg \<Rightarrow>
        (\<exists>e. validateCreateData d = Inl (App e) \<and> errorClass e = ValidationErrorClass
           \<and> statusCode e = 400 \<and> message e = msg)"
    by (rule validateCreateData_rules)
  show "distinct (map snd create_rules)"
    by (simp add: create_rules_def status_message_def)
next
  assume "name_c d = Some n \<and> length n = 255"
  then show "\<not> (\<exists>e. validateCreateData d = Inl (App e)
               \<and> message e = ''Name must be less than 255 characters'')"
    by (auto simp: validateCreateData_def ValidationError_def status_message_def truthy_def)
next
  assume "name_c d = Some n \<and> trim n \<noteq> [] \<and> length n = 256"
  then have "validateCreateData d
               = Inl (App (ValidationError ''Name must be less than 255 characters''))"
    by (auto simp: validateCreateData_def truthy_def)
  moreover have "error_with ValidationErrorClass 400 ''255''
                   (ValidationError ''Name must be less than 255 characters'')"
    by (simp add: error_with_def ValidationError_def sublist_Cons_right)
  ultimately show "\<exists>e. validateCreateData d = Inl (App e)
           \<and> error_with ValidationErrorClass 400 ''255'' e"
    by blast
qed

lemma trim_replicate_a: "trim (replicate n CHR ''a'') = replicate n CHR ''a''"
  by (simp add: trim_def isWhiteSpace_def dropWhile_replicate)

theorem validateCreateData_first_violation_witness:
  "\<not> (\<exists>e. validateCreateData
             \<lparr>name_c = Some (replicate 255 CHR ''a''), description_c = Some ''Test Description'',
              status_c = None\<rparr> = Inl (App e)
          \<and> message e = ''Name must be less than 255 characters'')
   \<and> (\<exists>e. validateCreateData
               \<lparr>name_c = Some (replicate 256 CHR ''a''), description_c = Some ''Test Description'',
                status_c = None\<rparr> = Inl (App e)
             \<and> error_with ValidationErrorClass 400 ''255'' e)"
proof -
  let ?d255 = "\<lparr>name_c = Some (replicate 255 CHR ''a''),
                description_c = Some ''Test Description'', status_c = None\<rparr>"
  let ?d256 = "\<lparr>name_c = Some (replicate 256 CHR ''a''),
                description_c = Some ''Test Description'', status_c = None\<rparr>"
  have h255: "name_c ?d255 = Some (replicate 255 CHR ''a'') \<and> length (replicate 255 CHR ''a'') = 255"
    by simp
  have "replicate 256 CHR ''a'' \<noteq> []"
    by (simp only: replicate_empty)
  then have h256: "name_c ?d256 = Some (replicate 256 CHR ''a'')
                   \<and> trim (replicate 256 CHR ''a'') \<noteq> []
                   \<and> length (replicate 256 CHR ''a'') = 256"
    by (simp add: trim_replicate_a)
  from validateCreateData_first_violation [of ?d255 "replicate 255 CHR ''a''"] h255
  have a: "\<not> (\<exists>e. validateCreateData ?d255 = Inl (App e)
               \<and> message e = ''Name must be less than 255 characters'')"
    by blast
  from validateCreateData_first_violation [of ?d256 "replicate 256 CHR ''a''"] h256
  have b: "\<exists>e. validateCreateData ?d256 = Inl (App e)
             \<and> error_with ValidationErrorClass 400 ''255'' e"
    by blast
  from a b show ?thesis by blast
qed

text \<open>
  C4, as stated, fails: for a create input with name \<open>n\<close>, description \<open>d\<close> and status
  the empty string, the status rule is the first violated rule, and validation passes.
\<close>

theorem validateCreateData_first_violation_counterexample:
  "first_violation create_rules
     \<lparr>name_c = Some ''n'', description_c = Some ''d'', status_c = Some []\<rparr>
     = Some status_message
   \<and> validateCreateData \<lparr>name_c = Some ''n'', description_c = Some ''d'', status_c = Some []\<rparr>
       = Inr ()"
  by (simp add: first_violation_def create_rules_def blank_def longer_than_def not_in_enum_def
        validateCreateData_def truthy_def trim_def isWhiteSpace_def)

section \<open>Repository lookups\<close>

lemma mapRowToResource_id [simp]: "mapRowToResource r = r"
  by (simp add: mapRowToResource_def)

lemma map_mapRowToResource [simp]: "map mapRowToResource rs = rs"
  by (induction rs) simp_all

lemma varchar_fits: "length s \<le> n \<Longrightarrow> varchar n s = Inr s"
  by (simp add: varchar_def)

lemma pg_text_nul_free: "nul_free s \<Longrightarrow> pg_text s = Inr s"
  by (simp add: pg_text_def nul_free_def)

lemma sint_int4: "int4 (sint (w :: 32 word))"
  using sint_ge [of w] sint_lt [of w] by (simp add: int4_def)

lemma sint_word_of_int4: "int4 i \<Longrightarrow> sint (word_of_int i :: 32 word) = i"
  by (simp add: int4_def sint_sbintrunc' signed_take_bit_int_eq_self)

lemma word_id_eq: "int4 i \<Longrightarrow> (w = (word_of_int i :: 32 word)) = (sint w = i)"
  using sint_word_of_int4 [of i] by auto

lemma pg_integer_int4: "int4 i \<Longrightarrow> pg_integer i = Inr (word_of_int i)"
  by (simp add: pg_integer_def int4_def)

lemma carried_id_int4: "i \<in> set (map (\<lambda>r. sint (id' r)) rs) \<Longrightarrow> int4 i"
  using sint_int4 by auto


lemma findById_present:
  assumes "i \<in> set (map (\<lambda>r. sint (id' r)) (rows st))"
  shows "\<exists>existing. existing \<in> set (rows st) \<and> sint (id' existing) = i
           \<and> ResourceModel_findById i st
               = (Inr (Some existing), st\<lparr>queries := queries st + 1\<rparr>)"
proof -
  note r = carried_id_int4 [OF assms]
  from assms have "filter (\<lambda>r. id' r = word_of_int i) (rows st) \<noteq> []"
    by (auto simp: filter_empty_conv word_id_eq [OF r])
  then obtain e es where f: "filter (\<lambda>r. id' r = word_of_int i) (rows st) = e # es"
    by (cases "filter (\<lambda>r. id' r = word_of_int i) (rows st)") auto
  then have "e \<in> set (filter (\<lambda>r. id' r = word_of_int i) (rows st))" by simp
  then have "e \<in> set (rows st)" "sint (id' e) = i"
    by (auto simp: word_id_eq [OF r])
  moreover have "ResourceModel_findById i st = (Inr (Some e), st\<lparr>queries := queries st + 1\<rparr>)"
    using f by (simp add: ResourceModel_findById_def pg_integer_int4 [OF r])
  ultimately show ?thesis by blast
qed





lemma status_check_ok:
  "status r = ''active'' \<or> status r = ''inactive'' \<Longrightarrow> status_check r = Inr r"
  by (auto simp: status_check_def)




section \<open>The table invariant is kept\<close>

text \<open>
  A table that starts empty, with its sequence at 1, and is changed only by \<open>create\<close>,
  \<open>update\<close> and \<open>delete\<close> satisfies \<open>table_ok\<close> at every moment.
\<close>

lemma varchar_length: "varchar n s = Inr s' \<Longrightarrow> length s' \<le> n"
  by (auto simp: varchar_def split: if_splits)

lemma status_check_Inr:
  "status_check r = Inr r' \<Longrightarrow> r' = r \<and> (status r = ''active'' \<or> status r = ''inactive'')"
  by (auto simp: status_check_def split: if_splits)

lemma apply_assignment_keeps:
  "apply_assignment now a r = Inr r' \<Longrightarrow>
     id' r' = id' r \<and> createdAt r' = createdAt r
     \<and> (length (name r) \<le> 255 \<longrightarrow> length (name r') \<le> 255)"
  by (cases a) (auto split: sum.splits dest: varchar_length)

lemma apply_assignments_keeps:
  "apply_assignments now as r = Inr r' \<Longrightarrow> length (name r) \<le> 255 \<Longrightarrow>
     id' r' = id' r \<and> createdAt r' = createdAt r \<and> row_ok r'"
proof (induction as arbitrary: r)
  case Nil
  then show ?case
    by (auto simp: row_ok_def dest: status_check_Inr)
next
  case (Cons a as)
  from Cons.prems(1) obtain r1 where a: "apply_assignment now a r = Inr r1"
    and rest: "apply_assignments now as r1 = Inr r'"
    by (auto split: sum.splits)
  from apply_assignment_keeps [OF a] Cons.prems(2)
  have k: "id' r1 = id' r" "createdAt r1 = createdAt r" "length (name r1) \<le> 255"
    by simp_all
  from Cons.IH [OF rest k(3)] k show ?case by simp
qed

lemma update_where_keeps:
  assumes "update_where k f rs = Inr (tbl, ret)"
    and "\<forall>r r'. r \<in> set rs \<longrightarrow> f r = Inr r' \<longrightarrow> id' r' = id' r \<and> row_ok r'"
    and "list_all (\<lambda>r. row_ok r \<and> sint (id' r) < n) rs"
  shows "map id' tbl = map id' rs \<and> list_all (\<lambda>r. row_ok r \<and> sint (id' r) < n) tbl"
  using assms
proof (induction rs arbitrary: tbl ret)
  case Nil
  then show ?case by simp
next
  case (Cons r rs)
  show ?case
  proof (cases "update_where k f rs")
    case (Inl e)
    with Cons.prems(1) show ?thesis
      by (cases "id' r = k"; cases "f r") simp_all
  next
    case (Inr p)
    obtain tbl' ret' where p: "p = (tbl', ret')" by (cases p)
    with Inr have rec: "update_where k f rs = Inr (tbl', ret')" by simp
    have sub: "\<forall>r r'. r \<in> set rs \<longrightarrow> f r = Inr r' \<longrightarrow> id' r' = id' r \<and> row_ok r'"
      using Cons.prems(2) by (meson list.set_intros(2))
    have rest: "list_all (\<lambda>r. row_ok r \<and> sint (id' r) < n) rs"
      and here: "row_ok r \<and> sint (id' r) < n"
      using Cons.prems(3) by simp_all
    from Cons.IH [OF rec sub rest]
    have ih: "map id' tbl' = map id' rs \<and> list_all (\<lambda>r. row_ok r \<and> sint (id' r) < n) tbl'" .
    show ?thesis
    proof (cases "id' r = k")
      case True
      show ?thesis
      proof (cases "f r")
        case (Inl e)
        with True Cons.prems(1) show ?thesis by simp
      next
        case (Inr r')
        with True rec Cons.prems(1) have tbl: "tbl = r' # tbl'" by simp
        from Cons.prems(2) Inr have "id' r' = id' r \<and> row_ok r'"
          by (meson list.set_intros(1))
        with ih tbl here show ?thesis by simp
      qed
    next
      case False
      with rec Cons.prems(1) have "tbl = r # tbl'" by simp
      with ih here show ?thesis by simp
    qed
  qed
qed

lemma table_ok_start: "table_ok \<lparr>rows = [], nextId = 1, queries = q\<rparr>"
  by (simp add: table_ok_def)


lemma table_ok_row: "table_ok st \<Longrightarrow> r \<in> set (rows st) \<Longrightarrow> row_ok r"
  by (simp add: table_ok_def list_all_iff)

lemma table_ok_fresh:
  assumes "table_ok st" and "nextId st \<le> 2147483647"
  shows "word_of_int (nextId st) \<notin> set (map id' (rows st))"
proof
  assume "word_of_int (nextId st) \<in> set (map id' (rows st))"
  then obtain r where r: "r \<in> set (rows st)" "id' r = word_of_int (nextId st)"
    by auto
  from assms have "int4 (nextId st)"
    by (simp add: table_ok_def int4_def)
  with r(2) have "sint (id' r) = nextId st"
    by (simp add: sint_word_of_int4)
  moreover from assms(1) r(1) have "sint (id' r) < nextId st"
    by (simp add: table_ok_def list_all_iff)
  ultimately show False by simp
qed

lemma table_ok_queries: "table_ok (st\<lparr>queries := k\<rparr>) = table_ok st"
  by (simp add: table_ok_def)

lemma table_ok_nextId:
  "table_ok st \<Longrightarrow> table_ok (st\<lparr>queries := k, nextId := nextId st + 1\<rparr>)"
  by (auto simp: table_ok_def list_all_iff)

lemma pg_insert_cases:
  "(\<exists>e. pg_insert now n d s st = (Inl e, st\<lparr>queries := queries st + 1\<rparr>))
   \<or> (\<exists>e. pg_insert now n d s st
            = (Inl e, st\<lparr>queries := queries st + 1, nextId := nextId st + 1\<rparr>))
   \<or> (\<exists>row. pg_insert now n d s st
              = (Inr [row], st\<lparr>queries := queries st + 1, nextId := nextId st + 1,
                                rows := rows st @ [row]\<rparr>)
         \<and> row_ok row \<and> id' row = word_of_int (nextId st) \<and> nextId st \<le> 2147483647)"
proof -
  have row: "row_ok row \<and> id' row = word_of_int (nextId st)"
    if "varchar 255 nv = Inr nv'"
      and "status_check \<lparr>id' = word_of_int (nextId st), name = nv', description = dv,
                          status = s', createdAt = now, updatedAt = now\<rparr> = Inr row"
    for nv nv' dv s' row
    using varchar_length [OF that(1)] status_check_Inr [OF that(2)]
    by (auto simp: row_ok_def)
  show ?thesis
    unfolding pg_insert_def Let_def
    by (auto split: option.splits sum.splits dest: row)
qed

lemma table_ok_pg_insert:
  assumes "table_ok st"
  shows "table_ok (snd (pg_insert now n d s st))"
proof -
  from pg_insert_cases [of now n d s st]
  consider (early) e where "pg_insert now n d s st = (Inl e, st\<lparr>queries := queries st + 1\<rparr>)"
    | (late) e where "pg_insert now n d s st
            = (Inl e, st\<lparr>queries := queries st + 1, nextId := nextId st + 1\<rparr>)"
    | (stored) row where "pg_insert now n d s st
              = (Inr [row], st\<lparr>queries := queries st + 1, nextId := nextId st + 1,
                                rows := rows st @ [row]\<rparr>)"
        "row_ok row" "id' row = word_of_int (nextId st)" "nextId st \<le> 2147483647"
    by blast
  then show ?thesis
  proof cases
    case early
    with assms show ?thesis by (simp add: table_ok_queries)
  next
    case late
    with table_ok_nextId [OF assms] show ?thesis by simp
  next
    case stored
    from assms stored(4) have r: "int4 (nextId st)"
      by (simp add: table_ok_def int4_def)
    have "sint (id' row) = nextId st"
      unfolding stored(3) by (rule sint_word_of_int4 [OF r])
    moreover note table_ok_fresh [OF assms stored(4)]
    ultimately have "table_ok (st\<lparr>queries := queries st + 1, nextId := nextId st + 1,
                                rows := rows st @ [row]\<rparr>)"
      using assms stored(2,3) by (auto simp: table_ok_def list_all_iff)
    with stored(1) show ?thesis by simp
  qed
qed

lemma table_ok_create:
  assumes "table_ok st"
  shows "table_ok (snd (ResourceModel_create now dto st))"
proof -
  have "snd (ResourceModel_create now dto st)
          = snd (pg_insert now (name_c dto) (description_c dto)
                   (case status_c dto of
                      None \<Rightarrow> ''active''
                    | Some s \<Rightarrow> if s = [] then ''active'' else s) st)"
    by (simp add: ResourceModel_create_def Let_def split: prod.splits sum.splits)
  with table_ok_pg_insert [OF assms] show ?thesis by simp
qed

lemma table_ok_delete:
  assumes "table_ok st"
  shows "table_ok (snd (ResourceModel_delete i st))"
  using assms
  by (cases "pg_integer i")
     (simp_all add: ResourceModel_delete_def table_ok_def Let_def list_all_iff
        distinct_map_filter)

lemma snd_findById: "snd (ResourceModel_findById i st) = st\<lparr>queries := queries st + 1\<rparr>"
  by (cases "pg_integer i") (simp_all add: ResourceModel_findById_def Let_def)

lemma table_ok_pg_update:
  assumes "table_ok st"
  shows "table_ok (snd (pg_update now sets i st))"
proof (cases "bind_assignments sets")
  case Inl
  with assms show ?thesis
    by (simp add: pg_update_def Let_def table_ok_queries)
next
  case bound: (Inr sets')
  show ?thesis
  proof (cases "pg_integer i")
    case Inl
    with bound assms show ?thesis
      by (simp add: pg_update_def Let_def table_ok_queries)
  next
    case key: (Inr k)
    show ?thesis
    proof (cases "update_where k (apply_assignments now sets') (rows st)")
      case Inl
      with bound key assms show ?thesis
        by (simp add: pg_update_def Let_def table_ok_queries)
    next
      case (Inr p)
      obtain tbl ret where p: "p = (tbl, ret)" by (cases p)
      have keeps: "\<forall>r r'. r \<in> set (rows st) \<longrightarrow> apply_assignments now sets' r = Inr r'
                     \<longrightarrow> id' r' = id' r \<and> row_ok r'"
      proof (intro allI impI)
        fix r r'
        assume "r \<in> set (rows st)" and a: "apply_assignments now sets' r = Inr r'"
        with assms have "length (name r) \<le> 255"
          using table_ok_row [of st r] by (simp add: row_ok_def)
        with apply_assignments_keeps [OF a] show "id' r' = id' r \<and> row_ok r'"
          by simp
      qed
      have all: "list_all (\<lambda>r. row_ok r \<and> sint (id' r) < nextId st) (rows st)"
        using assms by (simp add: table_ok_def)
      from Inr p
      have "update_where k (apply_assignments now sets') (rows st) = Inr (tbl, ret)"
        by simp
      from update_where_keeps [OF this keeps all]
      have "map id' tbl = map id' (rows st)
            \<and> list_all (\<lambda>r. row_ok r \<and> sint (id' r) < nextId st) tbl" .
      with assms have "table_ok (st\<lparr>queries := queries st + 1, rows := tbl\<rparr>)"
        by (simp add: table_ok_def)
      with Inr p bound key show ?thesis
        by (simp add: pg_update_def Let_def)
    qed
  qed
qed

lemma table_ok_update:
  assumes "table_ok st"
  shows "table_ok (snd (ResourceModel_update now i dto st))"
proof (cases "ResourceModel_findById i st")
  case (Pair found st1)
  with snd_findById [of i st] have st1: "st1 = st\<lparr>queries := queries st + 1\<rparr>"
    by simp
  with assms have ok1: "table_ok st1"
    by (simp add: table_ok_queries)
  let ?updates = "(case name_u dto of None \<Rightarrow> [] | Some v \<Rightarrow> [SetName v])
          @ (case description_u dto of None \<Rightarrow> [] | Some v \<Rightarrow> [SetDescription v])
          @ (case status_u dto of None \<Rightarrow> [] | Some v \<Rightarrow> [SetStatus v])"
  have "snd (ResourceModel_update now i dto st) = st1
        \<or> snd (ResourceModel_update now i dto st)
            = snd (pg_update now (?updates @ [SetUpdatedAtCurrentTimestamp]) i st1)"
    using Pair
    by (simp add: ResourceModel_update_def Let_def
          split: prod.splits sum.splits list.splits option.splits)
  with ok1 table_ok_pg_update [OF ok1] show ?thesis
    by auto
qed

lemma table_ok_service:
  assumes "table_ok st"
  shows "table_ok (snd (ResourceService_create now dto st))"
    and "table_ok (snd (ResourceService_update now i upd st))"
    and "table_ok (snd (ResourceService_delete i st))"
proof -
  have "snd (ResourceService_create now dto st) = st
        \<or> snd (ResourceService_create now dto st) = snd (ResourceModel_create now dto st)"
    by (simp add: ResourceService_create_def split: sum.splits)
  with assms table_ok_create [OF assms] show "table_ok (snd (ResourceService_create now dto st))"
    by auto
  have "snd (ResourceService_update now i upd st) = st
        \<or> snd (ResourceService_update now i upd st) = snd (ResourceModel_update now i upd st)"
    by (simp add: ResourceService_update_def split: sum.splits prod.splits option.splits)
  with assms table_ok_update [OF assms]
  show "table_ok (snd (ResourceService_update now i upd st))"
    by auto
  have "snd (ResourceService_delete i st) = snd (ResourceModel_delete i st)"
    by (simp add: ResourceService_delete_def split: prod.splits sum.splits bool.splits)
  with table_ok_delete [OF assms] show "table_ok (snd (ResourceService_delete i st))"
    by simp
qed

section \<open>Absent ids\<close>






section \<open>Updates\<close>

text \<open>
  C1, as amended. For an id that a row carries, \<open>update\<close> with name, description and status
  all absent returns the stored row as it is, \<open>updatedAt\<close> included, after the one lookup:
  no \<open>UPDATE\<close> is executed and the table is unchanged.
\<close>

theorem update_without_fields:
  "i \<in> set (map (\<lambda>r. sint (id' r)) (rows st))
     \<and> name_u dto = None \<and> description_u dto = None \<and> status_u dto = None \<longrightarrow>
   (\<exists>existing. existing \<in> set (rows st) \<and> sint (id' existing) = i
      \<and> ResourceModel_update now i dto st
          = (Inr (Some existing), st\<lparr>queries := queries st + 1\<rparr>))"
proof
  assume a: "i \<in> set (map (\<lambda>r. sint (id' r)) (rows st))
     \<and> name_u dto = None \<and> description_u dto = None \<and> status_u dto = None"
  then obtain existing where e: "existing \<in> set (rows st)" "sint (id' existing) = i"
      "ResourceModel_findById i st = (Inr (Some existing), st\<lparr>queries := queries st + 1\<rparr>)"
    using findById_present [of i st] by blast
  from a e(3) have "ResourceModel_update now i dto st
          = (Inr (Some existing), st\<lparr>queries := queries st + 1\<rparr>)"
    by (simp add: ResourceModel_update_def)
  with e show "\<exists>existing. existing \<in> set (rows st) \<and> sint (id' existing) = i
      \<and> ResourceModel_update now i dto st
          = (Inr (Some existing), st\<lparr>queries := queries st + 1\<rparr>)"
    by blast
qed

theorem update_without_fields_witness:
  "\<exists>existing. existing \<in> set [\<lparr>id' = 1, name = ''Original Name'',
                                    description = ''Original Description'',
                                    status = ''active'', createdAt = 3, updatedAt = 3\<rparr>]
     \<and> sint (id' existing) = 1
     \<and> ResourceModel_update 9 1 \<lparr>name_u = None, description_u = None, status_u = None\<rparr>
          \<lparr>rows = [\<lparr>id' = 1, name = ''Original Name'', description = ''Original Description'',
                    status = ''active'', createdAt = 3, updatedAt = 3\<rparr>],
           nextId = 2, queries = 0\<rparr>
        = (Inr (Some existing),
           \<lparr>rows = [\<lparr>id' = 1, name = ''Original Name'', description = ''Original Description'',
                    status = ''active'', createdAt = 3, updatedAt = 3\<rparr>],
           nextId = 2, queries = 1\<rparr>)"
  using update_without_fields
          [of 1 "\<lparr>rows = [\<lparr>id' = 1, name = ''Original Name'',
                               description = ''Original Description'',
                               status = ''active'', createdAt = 3, updatedAt = 3\<rparr>],
                   nextId = 2, queries = 0\<rparr>"
              "\<lparr>name_u = None, description_u = None, status_u = None\<rparr>" 9]
  by simp

text \<open>
  C1, as stated, fails: at clock value 9 an update without fields of a row last updated at
  3 returns the row with \<open>updatedAt\<close> still 3 and leaves it so in the table.
\<close>

theorem update_without_fields_counterexample:
  "ResourceModel_update 9 1 \<lparr>name_u = None, description_u = None, status_u = None\<rparr>
     \<lparr>rows = [\<lparr>id' = 1, name = ''Original Name'', description = ''Original Description'',
               status = ''active'', createdAt = 3, updatedAt = 3\<rparr>],
      nextId = 2, queries = 0\<rparr>
   = (Inr (Some \<lparr>id' = 1, name = ''Original Name'', description = ''Original Description'',
                 status = ''active'', createdAt = 3, updatedAt = 3\<rparr>),
      \<lparr>rows = [\<lparr>id' = 1, name = ''Original Name'', description = ''Original Description'',
                status = ''active'', createdAt = 3, updatedAt = 3\<rparr>],
       nextId = 2, queries = 1\<rparr>)
   \<and> (3 :: nat) \<noteq> 9"
  by (simp add: ResourceModel_update_def ResourceModel_findById_def pg_integer_def)




section \<open>Creation with an empty status\<close>

text \<open>
  C10, as amended. A create input whose status is the empty string is validated exactly as
  the same input without a status, and the service's \<open>create\<close> has the same outcome for
  both. When name and description pass their rules, validation passes; when, moreover, they
  hold no \<open>U+0000\<close>, then on a table as the schema keeps it, whose sequence has a value
  left, the resource is stored with status \<open>active\<close>.
\<close>

theorem create_empty_status:
  assumes "status_c dto = Some []"
  shows "validateCreateData dto = validateCreateData (dto\<lparr>status_c := None\<rparr>)
   \<and> ResourceService_create now dto st = ResourceService_create now (dto\<lparr>status_c := None\<rparr>) st
   \<and> (\<not> blank (name_c dto) \<and> \<not> longer_than 255 (name_c dto)
        \<and> \<not> blank (description_c dto) \<and> \<not> longer_than 1000 (description_c dto) \<longrightarrow>
        validateCreateData dto = Inr ()
        \<and> (nul_free (the (name_c dto)) \<and> nul_free (the (description_c dto))
             \<and> table_ok st \<and> nextId st \<le> 2147483647 \<longrightarrow>
             ResourceService_create now dto st =
               (Inr \<lparr>id' = word_of_int (nextId st), name = the (name_c dto),
                     description = the (description_c dto), status = ''active'',
                     createdAt = now, updatedAt = now\<rparr>,
                st\<lparr>queries := queries st + 1,
                   rows := rows st @ [\<lparr>id' = word_of_int (nextId st), name = the (name_c dto),
                                       description = the (description_c dto),
                                       status = ''active'', createdAt = now, updatedAt = now\<rparr>],
                   nextId := nextId st + 1\<rparr>)))"
proof -
  have v: "validateCreateData dto = validateCreateData (dto\<lparr>status_c := None\<rparr>)"
    using assms by (simp add: validateCreateData_def truthy_def)
  have m: "ResourceModel_create now dto st = ResourceModel_create now (dto\<lparr>status_c := None\<rparr>) st"
    using assms by (simp add: ResourceModel_create_def)
  have s: "ResourceService_create now dto st
             = ResourceService_create now (dto\<lparr>status_c := None\<rparr>) st"
    by (simp add: ResourceService_create_def v m split: sum.splits)
  have ok: "validateCreateData dto = Inr ()"
    if "\<not> blank (name_c dto) \<and> \<not> longer_than 255 (name_c dto)
        \<and> \<not> blank (description_c dto) \<and> \<not> longer_than 1000 (description_c dto)"
  proof -
    from that obtain n d where nd: "name_c dto = Some n" "description_c dto = Some d"
      and t: "trim n \<noteq> []" "trim d \<noteq> []" and l: "length n \<le> 255" "length d \<le> 1000"
      by (cases "name_c dto"; cases "description_c dto") (auto simp: blank_def longer_than_def)
    from t have "n \<noteq> []" "d \<noteq> []"
      by auto
    with nd t l assms show ?thesis
      by (simp add: validateCreateData_def truthy_def)
  qed
  have ins: "ResourceService_create now dto st =
               (Inr \<lparr>id' = word_of_int (nextId st), name = the (name_c dto),
                     description = the (description_c dto), status = ''active'',
                     createdAt = now, updatedAt = now\<rparr>,
                st\<lparr>queries := queries st + 1,
                   rows := rows st @ [\<lparr>id' = word_of_int (nextId st), name = the (name_c dto),
                                       description = the (description_c dto),
                                       status = ''active'', createdAt = now, updatedAt = now\<rparr>],
                   nextId := nextId st + 1\<rparr>)"
    if valid: "\<not> blank (name_c dto) \<and> \<not> longer_than 255 (name_c dto)
        \<and> \<not> blank (description_c dto) \<and> \<not> longer_than 1000 (description_c dto)"
      and accepted: "nul_free (the (name_c dto)) \<and> nul_free (the (description_c dto))
             \<and> table_ok st \<and> nextId st \<le> 2147483647"
  proof -
    from accepted have fresh: "word_of_int (nextId st) \<notin> set (map id' (rows st))"
      using table_ok_fresh [of st] by blast
    from valid obtain n d where nd: "name_c dto = Some n" "description_c dto = Some d"
      by (cases "name_c dto"; cases "description_c dto") (auto simp: blank_def)
    with valid have "length n \<le> 255"
      by (simp add: longer_than_def)
    then have vn: "varchar 255 n = Inr n"
      by (rule varchar_fits)
    have va: "varchar 20 ''active'' = Inr ''active''"
      by (simp add: varchar_def)
    from accepted nd have tn: "pg_text n = Inr n" and td: "pg_text d = Inr d"
      by (simp_all add: pg_text_nul_free)
    have ta: "pg_text ''active'' = Inr ''active''"
      by (simp add: pg_text_def)
    from accepted have seq: "\<not> 2147483647 < nextId st"
      by simp
    show ?thesis
      using ok [OF valid] nd vn va tn td ta seq fresh assms
      by (simp add: ResourceService_create_def ResourceModel_create_def pg_insert_def
            pg_text_opt_def status_check_def first_row_def)
  qed
  from v s ok ins show ?thesis by blast
qed

theorem create_empty_status_witness:
  "ResourceService_create 7
     \<lparr>name_c = Some ''Test Resource'', description_c = Some ''This is a test resource'',
      status_c = Some []\<rparr>
     \<lparr>rows = [], nextId = 1, queries = 0\<rparr>
   = (Inr \<lparr>id' = 1, name = ''Test Resource'', description = ''This is a test resource'',
           status = ''active'', createdAt = 7, updatedAt = 7\<rparr>,
      \<lparr>rows = [\<lparr>id' = 1, name = ''Test Resource'', description = ''This is a test resource'',
                status = ''active'', createdAt = 7, updatedAt = 7\<rparr>],
       nextId = 2, queries = 1\<rparr>)"
proof -
  let ?dto = "\<lparr>name_c = Some ''Test Resource'',
               description_c = Some ''This is a test resource'', status_c = Some []\<rparr>"
  let ?st = "\<lparr>rows = [], nextId = 1, queries = 0\<rparr>"
  have h: "status_c ?dto = Some []" by simp
  have valid: "\<not> blank (name_c ?dto) \<and> \<not> longer_than 255 (name_c ?dto)
        \<and> \<not> blank (description_c ?dto) \<and> \<not> longer_than 1000 (description_c ?dto)"
    by (simp add: blank_def longer_than_def trim_def isWhiteSpace_def)
  have accepted: "nul_free (the (name_c ?dto)) \<and> nul_free (the (description_c ?dto))
             \<and> table_ok ?st \<and> nextId ?st \<le> 2147483647"
    by (simp add: nul_free_def table_ok_def)
  from create_empty_status [OF h, of 7 ?st] valid accepted
  have "ResourceService_create 7 ?dto ?st =
          (Inr \<lparr>id' = word_of_int (nextId ?st), name = the (name_c ?dto),
                description = the (description_c ?dto), status = ''active'',
                createdAt = 7, updatedAt = 7\<rparr>,
           ?st\<lparr>queries := queries ?st + 1,
                rows := rows ?st @ [\<lparr>id' = word_of_int (nextId ?st), name = the (name_c ?dto),
                                      description = the (description_c ?dto),
                                      status = ''active'', createdAt = 7, updatedAt = 7\<rparr>],
                nextId := nextId ?st + 1\<rparr>)"
    by blast
  then show ?thesis
    by simp
qed

text \<open>
  C10, as stated, fails: a create input with the empty-string status whose name holds
  \<open>U+0000\<close> passes validation, and nothing is stored: the \<open>INSERT\<close> throws.
\<close>

theorem create_empty_status_counterexample:
  "validateCreateData
     \<lparr>name_c = Some [CHR ''a'', CHR 0x00, CHR ''b''], description_c = Some ''d'',
      status_c = Some []\<rparr> = Inr ()
   \<and> ResourceService_create 7
       \<lparr>name_c = Some [CHR ''a'', CHR 0x00, CHR ''b''], description_c = Some ''d'',
        status_c = Some []\<rparr>
       \<lparr>rows = [], nextId = 1, queries = 0\<rparr>
     = (Inl (Other ''invalid byte sequence for encoding \"UTF8\": 0x00''),
        \<lparr>rows = [], nextId = 1, queries = 1\<rparr>)"
proof -
  have v: "validateCreateData
     \<lparr>name_c = Some [CHR ''a'', CHR 0x00, CHR ''b''], description_c = Some ''d'',
      status_c = Some []\<rparr> = Inr ()"
    by (simp add: validateCreateData_def truthy_def trim_def isWhiteSpace_def)
  show ?thesis
    by (simp add: v ResourceService_create_def ResourceModel_create_def pg_insert_def
          pg_text_opt_def pg_text_def)
qed

section \<open>Listing with filters and pagination\<close>

text \<open>
  A pattern \<open>%x%\<close> whose \<open>x\<close> has no \<open>%\<close>, \<open>_\<close> or backslash matches
  exactly the texts that contain \<open>x\<close>.
\<close>

lemma like_match_percent:
  "like_match (CHR ''%'' # ps) s \<longleftrightarrow> (\<exists>pre rest. s = pre @ rest \<and> like_match ps rest)"
proof (induction s)
  case Nil
  then show ?case by (simp add: like_match.simps(2))
next
  case (Cons c cs)
  have "like_match (CHR ''%'' # ps) (c # cs)
          \<longleftrightarrow> like_match ps (c # cs) \<or> like_match (CHR ''%'' # ps) cs"
    by (simp add: like_match.simps(2))
  also have "\<dots> \<longleftrightarrow> like_match ps (c # cs) \<or> (\<exists>pre rest. cs = pre @ rest \<and> like_match ps rest)"
    by (simp only: Cons.IH)
  also have "\<dots> \<longleftrightarrow> (\<exists>pre rest. c # cs = pre @ rest \<and> like_match ps rest)"
  proof
    assume "like_match ps (c # cs) \<or> (\<exists>pre rest. cs = pre @ rest \<and> like_match ps rest)"
    then show "\<exists>pre rest. c # cs = pre @ rest \<and> like_match ps rest"
    proof
      assume "like_match ps (c # cs)"
      then have "c # cs = [] @ (c # cs) \<and> like_match ps (c # cs)" by simp
      then show ?thesis by blast
    next
      assume "\<exists>pre rest. cs = pre @ rest \<and> like_match ps rest"
      then obtain pre rest where "cs = pre @ rest" "like_match ps rest" by blast
      then have "c # cs = (c # pre) @ rest \<and> like_match ps rest" by simp
      then show ?thesis by blast
    qed
  next
    assume "\<exists>pre rest. c # cs = pre @ rest \<and> like_match ps rest"
    then obtain pre rest where pr: "c # cs = pre @ rest" "like_match ps rest" by blast
    show "like_match ps (c # cs) \<or> (\<exists>pre rest. cs = pre @ rest \<and> like_match ps rest)"
    proof (cases pre)
      case Nil
      with pr show ?thesis by simp
    next
      case (Cons a pre')
      with pr have "cs = pre' @ rest" by simp
      with pr(2) show ?thesis by blast
    qed
  qed
  finally show ?case .
qed

lemma like_match_literal:
  "set lit \<inter> like_special = {} \<Longrightarrow>
     like_match (lit @ ps) s \<longleftrightarrow> (\<exists>rest. s = lit @ rest \<and> like_match ps rest)"
proof (induction lit arbitrary: s)
  case Nil
  then show ?case by simp
next
  case (Cons p lit)
  then have p: "p \<noteq> CHR ''%''" "p \<noteq> CHR ''_''" "p \<noteq> CHR 0x5C"
    and lit: "set lit \<inter> like_special = {}"
    by (auto simp: like_special_def)
  show ?case
  proof (cases s)
    case Nil
    with p show ?thesis by (simp add: like_match.simps(2))
  next
    case (Cons c cs)
    with p have "like_match ((p # lit) @ ps) s \<longleftrightarrow> c = p \<and> like_match (lit @ ps) cs"
      by (simp add: like_match.simps(2))
    also have "\<dots> \<longleftrightarrow> c = p \<and> (\<exists>rest. cs = lit @ rest \<and> like_match ps rest)"
      using Cons.IH [OF lit] by simp
    also have "\<dots> \<longleftrightarrow> (\<exists>rest. s = (p # lit) @ rest \<and> like_match ps rest)"
      using Cons by auto
    finally show ?thesis .
  qed
qed

lemma like_match_contains:
  assumes "set lit \<inter> like_special = {}"
  shows "like_match (''%'' @ lit @ ''%'') s \<longleftrightarrow> sublist lit s"
proof -
  have all: "like_match ''%'' t" for t
    using like_match_percent [of "[]" t] by auto
  have "like_match (''%'' @ lit @ ''%'') s
          \<longleftrightarrow> (\<exists>pre rest. s = pre @ rest \<and> like_match (lit @ ''%'') rest)"
    using like_match_percent [of "lit @ ''%''" s] by simp
  also have "\<dots> \<longleftrightarrow> (\<exists>pre rest. s = pre @ rest \<and> (\<exists>post. rest = lit @ post))"
    using like_match_literal [OF assms, of "''%''"] all by simp
  also have "\<dots> \<longleftrightarrow> sublist lit s"
    by (auto simp: sublist_def)
  finally show ?thesis .
qed

lemma toLower_special: "toLower c \<in> like_special \<longleftrightarrow> c \<in> like_special"
  by (auto simp: toLower_def like_special_def split: option.splits if_splits)

lemma ilike_contains:
  assumes "set x \<inter> like_special = {}"
  shows "ilike s (''%'' @ x @ ''%'') \<longleftrightarrow> contains_ci x s"
proof -
  have "set (map toLower x) \<inter> like_special = {}"
    using assms toLower_special by auto
  from like_match_contains [OF this, of "map toLower s"]
  show ?thesis
    by (simp add: ilike_def contains_ci_def toLower_def)
qed

lemma contains_ci_Nil [simp]: "contains_ci [] s"
  by (simp add: contains_ci_def)

lemma where_clause_matches:
  assumes "status_f f \<noteq> Some []"
    and "\<forall>x. search_f f = Some x \<longrightarrow> set x \<inter> like_special = {}"
  shows "where_clause (findAll_conditions f) r
         = matches f r"
proof -
  have st: "(if truthy (status_f f) then status r = the (status_f f) else True)
              = (case status_f f of None \<Rightarrow> True | Some s \<Rightarrow> status r = s)"
    using assms(1) by (cases "status_f f") (auto simp: truthy_def)
  have se: "(if truthy (search_f f)
             then ilike (name r) (''%'' @ the (search_f f) @ ''%'')
                  \<or> ilike (description r) (''%'' @ the (search_f f) @ ''%'')
             else True)
            = (case search_f f of
                 None \<Rightarrow> True
               | Some x \<Rightarrow> contains_ci x (name r) \<or> contains_ci x (description r))"
  proof (cases "search_f f")
    case None
    then show ?thesis by (simp add: truthy_def)
  next
    case (Some x)
    with assms(2) have "set x \<inter> like_special = {}" by simp
    with Some show ?thesis
      using ilike_contains [of x "name r"] ilike_contains [of x "description r"]
      by (cases "x = []") (simp_all add: truthy_def)
  qed
  have "where_clause (findAll_conditions f) r
        = ((if truthy (status_f f) then status r = the (status_f f) else True)
           \<and> (if truthy (search_f f)
             then ilike (name r) (''%'' @ the (search_f f) @ ''%'')
                  \<or> ilike (description r) (''%'' @ the (search_f f) @ ''%'')
             else True))"
    by (simp add: where_clause_def findAll_conditions_def Let_def)
  then show ?thesis
    by (simp only: st se matches_def)
qed

lemma bind_conditions_accepted:
  assumes "\<forall>s. status_f f = Some s \<longrightarrow> nul_free s"
    and "\<forall>x. search_f f = Some x \<longrightarrow> nul_free x"
  shows "bind_conditions (findAll_conditions f) = Inr (findAll_conditions f)"
  using assms
  by (cases "status_f f"; cases "search_f f")
     (simp_all add: findAll_conditions_def truthy_def pg_text_def nul_free_def Let_def)

lemma order_by_createdAt_desc_sorted:
  "sorted_wrt (\<lambda>a b. createdAt b \<le> createdAt a) (order_by_createdAt_desc rs)
   \<and> mset (order_by_createdAt_desc rs) = mset rs"
proof -
  have "sorted (map createdAt (sort_key createdAt rs))"
    by (rule sorted_sort_key)
  then have "sorted_wrt (\<lambda>a b. createdAt a \<le> createdAt b) (sort_key createdAt rs)"
    by (simp add: sorted_wrt_map)
  then have "sorted_wrt (\<lambda>a b. createdAt b \<le> createdAt a) (rev (sort_key createdAt rs))"
    by (simp add: sorted_wrt_rev)
  then show ?thesis
    by (simp add: order_by_createdAt_desc_def)
qed

lemma findAll_page_of_matches:
  assumes "status_f f \<noteq> Some []"
    and "\<forall>x. search_f f = Some x \<longrightarrow> set x \<inter> like_special = {}"
    and "pg = (case page_f f of None \<Rightarrow> 1 | Some p \<Rightarrow> p)"
    and "lm = (case limit_f f of None \<Rightarrow> 10 | Some l \<Rightarrow> l)"
    and "1 \<le> pg" and "1 \<le> lm"
    and "\<forall>s. status_f f = Some s \<longrightarrow> nul_free s"
    and "\<forall>x. search_f f = Some x \<longrightarrow> nul_free x"
  shows "ResourceModel_findAll f st =
           (Inr \<lparr>data = take (nat lm) (drop (nat ((pg - 1) * lm))
                           (order_by_createdAt_desc (filter (matches f) (rows st)))),
                 pagination =
                   \<lparr>page = pg, limit = lm,
                    total_p = int (length (filter (matches f) (rows st))),
                    totalPages = \<lceil>rat_of_int (int (length (filter (matches f) (rows st))))
                                   / rat_of_int lm\<rceil>\<rparr>\<rparr>,
            st\<lparr>queries := queries st + 2\<rparr>)"
proof -
  have w: "where_clause (findAll_conditions f) = matches f"
    using where_clause_matches [OF assms(1,2)] by (intro ext)
  have pg: "(case page_f f of None \<Rightarrow> 1 | Some p \<Rightarrow> if p = 0 then 1 else p) = pg"
    using assms(3,5) by (cases "page_f f") auto
  have lm: "(case limit_f f of None \<Rightarrow> 10 | Some l \<Rightarrow> if l = 0 then 10 else l) = lm"
    using assms(4,6) by (cases "limit_f f") auto
  have "0 \<le> (pg - 1) * lm"
    using assms(5,6) by (intro mult_nonneg_nonneg) simp_all
  then have nonneg: "\<not> lm < 0" "\<not> (pg - 1) * lm < 0"
    using assms(6) by simp_all
  show ?thesis
    unfolding ResourceModel_findAll_def Let_def bind_conditions_accepted [OF assms(7,8)] pg lm
    using nonneg by (simp add: w)
qed

text \<open>
  C2. \<open>findAll\<close> is to count and return the rows whose name or description contains the
  search term, letter case aside. For a search term free of \<open>%\<close>, \<open>_\<close> and backslash
  it does (\<open>findAll_page_of_matches\<close>, with the total, the page of at most \<open>limit\<close>
  rows by descending \<open>createdAt\<close> and the number of pages as claimed). The term goes into
  the \<open>ILIKE\<close> pattern unescaped, though: the search term \<open>_\<close> selects a row whose
  name and description contain no underscore, and counts it in the total.
\<close>

theorem findAll_search_wildcard:
  "ResourceModel_findAll \<lparr>status_f = None, search_f = Some ''_'', page_f = None, limit_f = None\<rparr>
     \<lparr>rows = [\<lparr>id' = 1, name = ''Active Resource'', description = ''An active resource'',
               status = ''active'', createdAt = 3, updatedAt = 3\<rparr>],
      nextId = 2, queries = 0\<rparr>
   = (Inr \<lparr>data = [\<lparr>id' = 1, name = ''Active Resource'', description = ''An active resource'',
                   status = ''active'', createdAt = 3, updatedAt = 3\<rparr>],
           pagination = \<lparr>page = 1, limit = 10, total_p = 1, totalPages = 1\<rparr>\<rparr>,
      \<lparr>rows = [\<lparr>id' = 1, name = ''Active Resource'', description = ''An active resource'',
                status = ''active'', createdAt = 3, updatedAt = 3\<rparr>],
       nextId = 2, queries = 2\<rparr>)
   \<and> \<not> contains_ci ''_'' ''Active Resource''
   \<and> \<not> contains_ci ''_'' ''An active resource''"
proof -
  have m1: "ilike ''Active Resource'' ''%_%''"
    by (simp add: ilike_def toLower_def like_match.simps(2))
  have pages: "\<lceil>(1 :: rat) / 10\<rceil> = 1"
    by (rule ceiling_unique) simp_all
  have c1: "\<not> contains_ci ''_'' ''Active Resource''"
    by (simp add: contains_ci_def toLower_def sublist_Cons_right)
  have c2: "\<not> contains_ci ''_'' ''An active resource''"
    by (simp add: contains_ci_def toLower_def sublist_Cons_right)
  have "ResourceModel_findAll \<lparr>status_f = None, search_f = Some ''_'', page_f = None, limit_f = None\<rparr>
     \<lparr>rows = [\<lparr>id' = 1, name = ''Active Resource'', description = ''An active resource'',
               status = ''active'', createdAt = 3, updatedAt = 3\<rparr>],
      nextId = 2, queries = 0\<rparr>
   = (Inr \<lparr>data = [\<lparr>id' = 1, name = ''Active Resource'', description = ''An active resource'',
                   status = ''active'', createdAt = 3, updatedAt = 3\<rparr>],
           pagination = \<lparr>page = 1, limit = 10, total_p = 1, totalPages = 1\<rparr>\<rparr>,
      \<lparr>rows = [\<lparr>id' = 1, name = ''Active Resource'', description = ''An active resource'',
                status = ''active'', createdAt = 3, updatedAt = 3\<rparr>],
       nextId = 2, queries = 2\<rparr>)"
    using m1 pages
    by (simp add: ResourceModel_findAll_def findAll_conditions_def Let_def truthy_def
          pg_text_def where_clause_def order_by_createdAt_desc_def)
  with c1 c2 show ?thesis by simp
qed

end
